theory Spec2Isabelle
  imports Main
begin

section \<open>Python values and dictionaries\<close>

text \<open>
  The module \<^verbatim>\<open>gns3/modules/virtualbox/__init__.py\<close> keeps its state in Python
  dictionaries whose values are strings, booleans, integers or \<^verbatim>\<open>None\<close>.
\<close>

datatype pyvalue = PNone | PStr string | PBool bool | PInt int

text \<open>Truth value of an object, as \<^verbatim>\<open>if x:\<close> and \<^verbatim>\<open>not x\<close> read it.\<close>

fun truthy :: "pyvalue \<Rightarrow> bool" where
  "truthy PNone = False"
| "truthy (PStr s) = (s \<noteq> [])"
| "truthy (PBool b) = b"
| "truthy (PInt i) = (i \<noteq> 0)"

text \<open>Python's \<^verbatim>\<open>==\<close>: a boolean equals the integer 0 or 1 it stands for.\<close>

fun py_eq :: "pyvalue \<Rightarrow> pyvalue \<Rightarrow> bool" where
  "py_eq (PBool a) (PInt i) = (i = (if a then 1 else 0))"
| "py_eq (PInt i) (PBool a) = (i = (if a then 1 else 0))"
| "py_eq a b = (a = b)"

text \<open>Decimal digits of a natural number, most significant first.\<close>

function str_nat :: "nat \<Rightarrow> string" where
  "str_nat n =
     (if n < 10 then [''0123456789'' ! n]
      else str_nat (n div 10) @ [''0123456789'' ! (n mod 10)])"
  by pat_completeness auto
termination
  by (relation "measure (\<lambda>n. n)") auto

declare str_nat.simps [simp del]

definition str_int :: "int \<Rightarrow> string" where
  "str_int i = (if i < 0 then CHR ''-'' # str_nat (nat (- i)) else str_nat (nat i))"

text \<open>What \<^verbatim>\<open>"{}".format(x)\<close> inserts for a value.\<close>

fun py_str :: "pyvalue \<Rightarrow> string" where
  "py_str PNone = ''None''"
| "py_str (PStr s) = s"
| "py_str (PBool b) = (if b then ''True'' else ''False'')"
| "py_str (PInt i) = str_int i"

text \<open>
  A dictionary with string keys whose iteration order plays no role is a map; the
  dictionary of VM templates is iterated in several places, so it is the list of its
  items in iteration order (the keys of a dictionary are pairwise distinct).
\<close>

type_synonym pydict = "string \<rightharpoonup> pyvalue"

type_synonym vms_dict = "(string \<times> pydict) list"

datatype error = ModuleError string | KeyError string

text \<open>\<^verbatim>\<open>d[k]\<close>: raises \<^verbatim>\<open>KeyError\<close> for a missing key.\<close>

definition getitem :: "pydict \<Rightarrow> string \<Rightarrow> error + pyvalue" where
  "getitem d k = (case d k of None \<Rightarrow> Inl (KeyError k) | Some v \<Rightarrow> Inr v)"

section \<open>The module and its collaborators\<close>

text \<open>A server as the module reads it: \<^verbatim>\<open>server.host\<close> and \<^verbatim>\<open>server.isLocal()\<close>.\<close>

record server =
  host :: string
  isLocal :: bool

text \<open>A node: \<^verbatim>\<open>node.id()\<close>, \<^verbatim>\<open>node.server()\<close> and \<^verbatim>\<open>node.settings()\<close>.\<close>

record node =
  node_id :: nat
  node_server :: server
  node_settings :: pydict

text \<open>The attributes of the \<^verbatim>\<open>VirtualBox\<close> instance.\<close>

record module =
  settings :: pydict
  virtualbox_vms :: vms_dict
  nodes :: "node list"
  working_dir :: string

text \<open>
  What is persisted outside the process: the section of this module in the local
  server configuration (\<^verbatim>\<open>LocalServerConfig\<close>) and the array \<^verbatim>\<open>VM\<close> of the group
  \<^verbatim>\<open>VirtualBoxVMs\<close> of \<^verbatim>\<open>QSettings\<close>, one dictionary of named values per index.
\<close>

record store =
  server_config :: pydict
  vm_array :: "pydict list"

section \<open>Module settings\<close>

text \<open>\<^verbatim>\<open>_saveSettings\<close>: hands the settings dictionary to the server configuration.\<close>

definition saveSettings :: "module \<Rightarrow> store \<Rightarrow> store" where
  "saveSettings m st = st\<lparr>server_config := settings m\<rparr>"

text \<open>\<^verbatim>\<open>setSettings\<close>: \<^verbatim>\<open>self._settings.update(settings)\<close>, then \<^verbatim>\<open>_saveSettings\<close>.\<close>

definition setSettings :: "pydict \<Rightarrow> module \<times> store \<Rightarrow> module \<times> store" where
  "setSettings new_settings = (\<lambda>(m, st).
     (let m' = m\<lparr>settings := settings m ++ new_settings\<rparr>
      in (m', saveSettings m' st)))"

section \<open>The VM templates: loading and saving\<close>

text \<open>
  \<^verbatim>\<open>settings.value(name)\<close> at the current array index: the stored value, or
  \<^verbatim>\<open>None\<close> when the entry has none of that name.
\<close>

definition qvalue :: "pydict \<Rightarrow> string \<Rightarrow> pyvalue" where
  "qvalue entry name = (case entry name of None \<Rightarrow> PNone | Some v \<Rightarrow> v)"

text \<open>
  \<^verbatim>\<open>settings.value(name, default_value, VBOX_VM_SETTING_TYPES[name])\<close>. The table
  \<^verbatim>\<open>VBOX_VM_SETTING_TYPES\<close> lives in \<^verbatim>\<open>settings.py\<close> and the conversion in the Qt
  binding; both are outside this file, so the typed read is the parameter
  \<open>as_type\<close>: \<open>as_type name v\<close> is what the read returns for the setting \<open>name\<close>
  when the stored value, or the default for a missing one, is \<open>v\<close>.
\<close>

definition qvalue_typed ::
  "(string \<Rightarrow> pyvalue \<Rightarrow> pyvalue) \<Rightarrow> pydict \<Rightarrow> string \<Rightarrow> pyvalue \<Rightarrow> pyvalue" where
  "qvalue_typed as_type entry name default_value =
     as_type name (case entry name of None \<Rightarrow> default_value | Some v \<Rightarrow> v)"

text \<open>\<^verbatim>\<open>"{server}:{vmname}".format(server=server, vmname=vmname)\<close>\<close>

definition format_key :: "pyvalue \<Rightarrow> pyvalue \<Rightarrow> string" where
  "format_key server_v vmname_v = py_str server_v @ '':'' @ py_str vmname_v"

text \<open>
  The inner loop of \<^verbatim>\<open>_loadVirtualBoxVMs\<close> (lines 90-91) over the items of
  \<^verbatim>\<open>VBOX_VM_SETTINGS\<close>, another table of \<^verbatim>\<open>settings.py\<close>: a parameter, the list of
  its (name, default value) items.
\<close>

fun read_vm ::
  "(string \<Rightarrow> pyvalue \<Rightarrow> pyvalue) \<Rightarrow> pydict \<Rightarrow> (string \<times> pyvalue) list \<Rightarrow> pydict \<Rightarrow> pydict" where
  "read_vm as_type entry [] vm = vm"
| "read_vm as_type entry ((setting_name, default_value) # rest) vm =
     read_vm as_type entry rest
       (vm(setting_name \<mapsto> qvalue_typed as_type entry setting_name default_value))"

text \<open>
  The loop of lines 82-91 over the array entries. A new key is inserted behind the
  keys the dictionary already has.
\<close>

fun load_loop ::
  "(string \<times> pyvalue) list \<Rightarrow> (string \<Rightarrow> pyvalue \<Rightarrow> pyvalue) \<Rightarrow> pydict list \<Rightarrow> vms_dict \<Rightarrow> vms_dict" where
  "load_loop VBOX_VM_SETTINGS as_type [] vms = vms"
| "load_loop VBOX_VM_SETTINGS as_type (entry # entries) vms =
     (let vmname = qvalue entry ''vmname'';
          server = qvalue entry ''server'';
          key = format_key server vmname
      in if key \<in> set (map fst vms) \<or> \<not> truthy vmname \<or> \<not> truthy server
         then load_loop VBOX_VM_SETTINGS as_type entries vms
         else load_loop VBOX_VM_SETTINGS as_type entries
                (vms @ [(key, read_vm as_type entry VBOX_VM_SETTINGS Map.empty)]))"

definition loadVirtualBoxVMs ::
  "(string \<times> pyvalue) list \<Rightarrow> (string \<Rightarrow> pyvalue \<Rightarrow> pyvalue) \<Rightarrow> store \<Rightarrow> module \<Rightarrow> module" where
  "loadVirtualBoxVMs VBOX_VM_SETTINGS as_type st m =
     m\<lparr>virtualbox_vms := load_loop VBOX_VM_SETTINGS as_type (vm_array st) (virtualbox_vms m)\<rparr>"

text \<open>
  \<^verbatim>\<open>__init__\<close>: empty attributes, then \<^verbatim>\<open>_loadSettings\<close> and \<^verbatim>\<open>_loadVirtualBoxVMs\<close>.
  What \<^verbatim>\<open>LocalServerConfig.loadSettings\<close> returns is the parameter \<open>loaded_settings\<close>.
\<close>

definition init ::
  "(string \<times> pyvalue) list \<Rightarrow> (string \<Rightarrow> pyvalue \<Rightarrow> pyvalue) \<Rightarrow> pydict \<Rightarrow> store \<Rightarrow> module" where
  "init VBOX_VM_SETTINGS as_type loaded_settings st =
     loadVirtualBoxVMs VBOX_VM_SETTINGS as_type st
       \<lparr>settings = loaded_settings, virtualbox_vms = [], nodes = [], working_dir = ''''\<rparr>"

text \<open>
  The loop of lines 108-113: entry \<open>index\<close> of the array receives every item of the
  template, written by \<^verbatim>\<open>setValue\<close> under its name.
\<close>

fun write_vms :: "pydict list \<Rightarrow> pydict list \<Rightarrow> pydict list" where
  "write_vms [] array = array"
| "write_vms (vbox_vm # rest) array = write_vms rest (array @ [vbox_vm])"

text \<open>
  \<^verbatim>\<open>_saveVirtualBoxVMs\<close>: \<^verbatim>\<open>settings.remove("")\<close> empties the group, then the array is
  written from index 0.
\<close>

definition saveVirtualBoxVMs :: "module \<Rightarrow> store \<Rightarrow> store" where
  "saveVirtualBoxVMs m st =
     (let cleared = st\<lparr>vm_array := []\<rparr>
      in cleared\<lparr>vm_array := write_vms (map snd (virtualbox_vms m)) (vm_array cleared)\<rparr>)"

text \<open>\<^verbatim>\<open>setVirtualBoxVMs\<close>: replaces the dictionary by a copy of the new one and saves.\<close>

definition setVirtualBoxVMs :: "vms_dict \<Rightarrow> module \<times> store \<Rightarrow> module \<times> store" where
  "setVirtualBoxVMs new_virtualbox_vms = (\<lambda>(m, st).
     (let m' = m\<lparr>virtualbox_vms := new_virtualbox_vms\<rparr>
      in (m', saveVirtualBoxVMs m' st)))"

section \<open>Setting up a node\<close>

text \<open>The three messages \<^verbatim>\<open>setupNode\<close> raises a \<^verbatim>\<open>ModuleError\<close> with.\<close>

definition NoTemplateAvailable :: "string \<Rightarrow> error" where
  "NoTemplateAvailable server_host = ModuleError (''No VirtualBox VM on server '' @ server_host)"

definition SelectionCancelled :: error where
  "SelectionCancelled = ModuleError ''Please select a VirtualBox VM''"

definition TemplateAlreadyInUse :: error where
  "TemplateAlreadyInUse = ModuleError
     ''Sorry a VirtualBox VM can only be used once in your topology (this will change in future versions)''"

text \<open>Lines 209-211: the last template of that name in iteration order wins.\<close>

fun find_vm :: "string \<Rightarrow> vms_dict \<Rightarrow> string option \<Rightarrow> error + string option" where
  "find_vm node_name [] vm = Inr vm"
| "find_vm node_name ((vm_key, info) # rest) vm =
     (case getitem info ''vmname'' of
        Inl e \<Rightarrow> Inl e
      | Inr v \<Rightarrow> find_vm node_name rest (if py_eq (PStr node_name) v then Some vm_key else vm))"

text \<open>The condition of line 216.\<close>

definition on_server :: "pyvalue \<Rightarrow> server \<Rightarrow> bool" where
  "on_server info_server srv =
     (py_eq info_server (PStr (host srv)) \<or> (isLocal srv \<and> py_eq info_server (PStr ''local'')))"

text \<open>Lines 214-217.\<close>

fun select_vms :: "server \<Rightarrow> vms_dict \<Rightarrow> string list \<Rightarrow> error + string list" where
  "select_vms srv [] selected_vms = Inr selected_vms"
| "select_vms srv ((vm, info) # rest) selected_vms =
     (case getitem info ''server'' of
        Inl e \<Rightarrow> Inl e
      | Inr s \<Rightarrow> select_vms srv rest (if on_server s srv then selected_vms @ [vm] else selected_vms))"

text \<open>
  Lines 219-233. \<open>getItem\<close> is the dialog \<^verbatim>\<open>QInputDialog.getItem\<close> with the list of
  keys to choose from: it answers with a selection and whether the user confirmed.
\<close>

definition choose_vm :: "(string list \<Rightarrow> string \<times> bool) \<Rightarrow> server \<Rightarrow> string list \<Rightarrow> error + string" where
  "choose_vm getItem srv selected_vms =
     (if selected_vms = [] then Inl (NoTemplateAvailable (host srv))
      else if length selected_vms > 1 then
        (case getItem selected_vms of
           (selection, ok) \<Rightarrow> if ok then Inr selection else Inl SelectionCancelled)
      else Inr (hd selected_vms))"

text \<open>Lines 214-233: the selection among the templates on the server of the node.\<close>

definition select_on_server ::
  "(string list \<Rightarrow> string \<times> bool) \<Rightarrow> vms_dict \<Rightarrow> node \<Rightarrow> error + string" where
  "select_on_server getItem vms nd =
     (case select_vms (node_server nd) vms [] of
        Inl e \<Rightarrow> Inl e
      | Inr selected_vms \<Rightarrow> choose_vm getItem (node_server nd) selected_vms)"

text \<open>
  Lines 207-233: the key of the template the node is set up from. \<^verbatim>\<open>if node_name:\<close>
  is false for \<^verbatim>\<open>None\<close> and for the empty string, and \<^verbatim>\<open>if not vm:\<close> is true for
  \<^verbatim>\<open>None\<close> and for the empty key.
\<close>

definition resolve_vm ::
  "(string list \<Rightarrow> string \<times> bool) \<Rightarrow> vms_dict \<Rightarrow> node \<Rightarrow> string option \<Rightarrow> error + string" where
  "resolve_vm getItem vms nd node_name =
     (case (case node_name of
              None \<Rightarrow> Inr None
            | Some name \<Rightarrow> if name \<noteq> [] then find_vm name vms None else Inr None) of
        Inl e \<Rightarrow> Inl e
      | Inr None \<Rightarrow> select_on_server getItem vms nd
      | Inr (Some vm) \<Rightarrow> if vm = [] then select_on_server getItem vms nd else Inr vm)"

text \<open>
  Lines 237-240. The template \<open>info\<close> is \<^verbatim>\<open>self._virtualbox_vms[vm]\<close>, which line 235
  has already read; its \<^verbatim>\<open>server\<close> item is read only when the names agree.
\<close>

fun check_unused :: "pydict \<Rightarrow> node list \<Rightarrow> error + unit" where
  "check_unused info [] = Inr ()"
| "check_unused info (other_node # rest) =
     (case getitem (node_settings other_node) ''vmname'' of
        Inl e \<Rightarrow> Inl e
      | Inr other_vmname \<Rightarrow>
          (case getitem info ''vmname'' of
             Inl e \<Rightarrow> Inl e
           | Inr vmname \<Rightarrow>
               if py_eq other_vmname vmname then
                 (case getitem info ''server'' of
                    Inl e \<Rightarrow> Inl e
                  | Inr s \<Rightarrow>
                      if (py_eq s (PStr ''local'') \<and> isLocal (node_server other_node))
                         \<or> py_eq s (PStr (host (node_server other_node)))
                      then Inl TemplateAlreadyInUse
                      else check_unused info rest)
               else check_unused info rest))"

text \<open>The arguments of \<^verbatim>\<open>node.setup(vmname, linked_clone=..., additional_settings=...)\<close>.\<close>

record setup_call =
  vmname :: pyvalue
  linked_clone :: pyvalue
  additional_settings :: pydict

text \<open>
  Lines 235-248 for the key \<open>vm\<close>. The loop of lines 243-245 keeps the items of the
  template whose name is a key of \<^verbatim>\<open>node.settings()\<close>.
\<close>

definition configure :: "vms_dict \<Rightarrow> node list \<Rightarrow> node \<Rightarrow> string \<Rightarrow> error + setup_call" where
  "configure vms other_nodes nd vm =
     (case map_of vms vm of
        None \<Rightarrow> Inl (KeyError vm)
      | Some info \<Rightarrow>
          (case getitem info ''linked_base'' of
             Inl e \<Rightarrow> Inl e
           | Inr linked_base \<Rightarrow>
               (case (if \<not> truthy linked_base then check_unused info other_nodes else Inr ()) of
                  Inl e \<Rightarrow> Inl e
                | Inr _ \<Rightarrow>
                    (case getitem info ''vmname'' of
                       Inl e \<Rightarrow> Inl e
                     | Inr v \<Rightarrow>
                         Inr \<lparr>vmname = v, linked_clone = linked_base,
                              additional_settings = info |` dom (node_settings nd)\<rparr>))))"

text \<open>
  \<^verbatim>\<open>setupNode\<close>: either an exception, or the call of \<^verbatim>\<open>node.setup\<close> that ends it;
  with it the module as the call leaves it. No statement of the method assigns to an
  attribute of the module.
\<close>

definition setupNode ::
  "(string list \<Rightarrow> string \<times> bool) \<Rightarrow> module \<Rightarrow> node \<Rightarrow> string option \<Rightarrow> (error + setup_call) \<times> module" where
  "setupNode getItem m nd node_name =
     (case resolve_vm getItem (virtualbox_vms m) nd node_name of
        Inl e \<Rightarrow> (Inl e, m)
      | Inr vm \<Rightarrow> (configure (virtualbox_vms m) (nodes m) nd vm, m))"

section \<open>Vocabulary of the properties\<close>

text \<open>A template carries the name \<open>name\<close>; it carries a name, and another one.\<close>

definition named :: "string \<Rightarrow> pydict \<Rightarrow> bool" where
  "named name info =
     (case info ''vmname'' of None \<Rightarrow> False | Some v \<Rightarrow> py_eq (PStr name) v)"

definition other_name :: "string \<Rightarrow> pydict \<Rightarrow> bool" where
  "other_name name info =
     (case info ''vmname'' of None \<Rightarrow> False | Some v \<Rightarrow> \<not> py_eq (PStr name) v)"

text \<open>A template names a server, and it is not the server \<open>srv\<close>.\<close>

definition off_server :: "server \<Rightarrow> pydict \<Rightarrow> bool" where
  "off_server srv info =
     (case info ''server'' of None \<Rightarrow> False | Some s \<Rightarrow> \<not> on_server s srv)"

text \<open>A registered node is bound to the VM and the server of a template.\<close>

definition uses_template :: "pydict \<Rightarrow> node \<Rightarrow> bool" where
  "uses_template info other_node =
     (case node_settings other_node ''vmname'' of
        None \<Rightarrow> False
      | Some other_vmname \<Rightarrow>
          (case info ''vmname'' of
             None \<Rightarrow> False
           | Some v \<Rightarrow>
               (case info ''server'' of
                  None \<Rightarrow> False
                | Some s \<Rightarrow>
                    py_eq other_vmname v \<and>
                    ((py_eq s (PStr ''local'') \<and> isLocal (node_server other_node))
                     \<or> py_eq s (PStr (host (node_server other_node)))))))"

text \<open>An array entry passes the test of line 87 on its name and server.\<close>

definition loadable :: "pydict \<Rightarrow> bool" where
  "loadable entry = (truthy (qvalue entry ''vmname'') \<and> truthy (qvalue entry ''server''))"

text \<open>The key line 86 computes for an array entry.\<close>

definition entry_key :: "pydict \<Rightarrow> string" where
  "entry_key entry = format_key (qvalue entry ''server'') (qvalue entry ''vmname'')"

text \<open>A dictionary has an item of that name, and its value is not empty.\<close>

definition nonempty_item :: "pydict \<Rightarrow> string \<Rightarrow> bool" where
  "nonempty_item d name = (case d name of None \<Rightarrow> False | Some v \<Rightarrow> truthy v)"

text \<open>
  An item of the template dictionary that survives a restart: it is filed under the key
  of its own server and name, both non-empty, it has the settings of
  \<^verbatim>\<open>VBOX_VM_SETTINGS\<close> and no other, and the typed read hands each value back as it
  was written.
\<close>

definition persistable ::
  "(string \<times> pyvalue) list \<Rightarrow> (string \<Rightarrow> pyvalue \<Rightarrow> pyvalue) \<Rightarrow> string \<times> pydict \<Rightarrow> bool" where
  "persistable VBOX_VM_SETTINGS as_type = (\<lambda>(key, info).
     key = entry_key info \<and> loadable info \<and> dom info = fst ` set VBOX_VM_SETTINGS
     \<and> (\<forall>name v. info name = Some v \<longrightarrow> as_type name v = v))"

section \<open>A small installation\<close>

text \<open>Two templates, two nodes in the topology, and a settings table to read them with.\<close>

definition example_VBOX_VM_SETTINGS :: "(string \<times> pyvalue) list" where
  "example_VBOX_VM_SETTINGS =
     [(''vmname'', PStr ''''), (''server'', PStr ''local''),
      (''linked_base'', PBool False), (''adapters'', PInt 1)]"

definition as_stored :: "string \<Rightarrow> pyvalue \<Rightarrow> pyvalue" where
  "as_stored name v = v"

definition debian :: pydict where
  "debian = [''vmname'' \<mapsto> PStr ''debian'', ''server'' \<mapsto> PStr ''local'',
             ''linked_base'' \<mapsto> PBool False, ''adapters'' \<mapsto> PInt 1]"

definition router :: pydict where
  "router = [''vmname'' \<mapsto> PStr ''router'', ''server'' \<mapsto> PStr ''10.0.0.5'',
             ''linked_base'' \<mapsto> PBool True, ''adapters'' \<mapsto> PInt 2]"

definition unnamed :: pydict where
  "unnamed = [''vmname'' \<mapsto> PStr '''', ''server'' \<mapsto> PStr ''local'',
              ''linked_base'' \<mapsto> PBool False, ''adapters'' \<mapsto> PInt 1]"

definition example_vms :: vms_dict where
  "example_vms = [(''local:debian'', debian), (''10.0.0.5:router'', router)]"

definition local_server :: server where
  "local_server = \<lparr>host = ''127.0.0.1'', isLocal = True\<rparr>"

definition remote_server :: server where
  "remote_server = \<lparr>host = ''10.0.0.5'', isLocal = False\<rparr>"

definition far_server :: server where
  "far_server = \<lparr>host = ''10.0.0.9'', isLocal = False\<rparr>"

definition debian_node :: node where
  "debian_node = \<lparr>node_id = 1, node_server = local_server,
     node_settings = [''name'' \<mapsto> PStr ''debian-1'', ''vmname'' \<mapsto> PStr ''debian'',
                      ''adapters'' \<mapsto> PInt 1]\<rparr>"

definition router_node :: node where
  "router_node = \<lparr>node_id = 2, node_server = remote_server,
     node_settings = [''name'' \<mapsto> PStr ''router-1'', ''vmname'' \<mapsto> PStr ''router'',
                      ''adapters'' \<mapsto> PInt 2]\<rparr>"

definition new_node :: "server \<Rightarrow> node" where
  "new_node srv = \<lparr>node_id = 3, node_server = srv,
     node_settings = [''name'' \<mapsto> PStr '''', ''vmname'' \<mapsto> PStr '''',
                      ''adapters'' \<mapsto> PInt 1]\<rparr>"

definition example_module :: module where
  "example_module = \<lparr>settings = Map.empty, virtualbox_vms = example_vms,
     nodes = [router_node, debian_node], working_dir = ''''\<rparr>"

definition example_store :: store where
  "example_store = \<lparr>server_config = Map.empty, vm_array = []\<rparr>"

text \<open>A user who closes the dialog without choosing.\<close>

definition cancel :: "string list \<Rightarrow> string \<times> bool" where
  "cancel items = ('''', False)"

section \<open>Properties\<close>

subsection \<open>Module settings\<close>

text \<open>
  C7. For every current settings mapping and every update mapping, after
  \<^verbatim>\<open>setSettings\<close> each key of the update carries the update's value, each other key
  keeps the value (or the absence) it had, every other attribute of the module is as
  before, and the mapping handed to the server configuration is the merged one.
\<close>

theorem setSettings_merges:
  "setSettings U (m, st) = (m', st') \<Longrightarrow>
     settings m' k = (case U k of Some v \<Rightarrow> Some v | None \<Rightarrow> settings m k)
     \<and> virtualbox_vms m' = virtualbox_vms m \<and> nodes m' = nodes m
     \<and> working_dir m' = working_dir m
     \<and> server_config st' = settings m' \<and> vm_array st' = vm_array st"
  by (auto simp: setSettings_def saveSettings_def Let_def map_add_def split: option.splits)

theorem setSettings_merges_witness:
  "(case setSettings [''vboxmanage_path'' \<mapsto> PStr ''/usr/bin/VBoxManage'']
           (\<lparr>settings = [''vboxmanage_path'' \<mapsto> PStr '''', ''use_local_server'' \<mapsto> PBool True],
             virtualbox_vms = [], nodes = [], working_dir = ''''\<rparr>,
            \<lparr>server_config = Map.empty, vm_array = []\<rparr>)
    of (m', st') \<Rightarrow>
      settings m' ''vboxmanage_path'' = Some (PStr ''/usr/bin/VBoxManage'')
      \<and> settings m' ''use_local_server'' = Some (PBool True)
      \<and> settings m' ''console'' = None
      \<and> server_config st' = settings m')"
proof -
  obtain m' st' where r:
    "setSettings [''vboxmanage_path'' \<mapsto> PStr ''/usr/bin/VBoxManage'']
       (\<lparr>settings = [''vboxmanage_path'' \<mapsto> PStr '''', ''use_local_server'' \<mapsto> PBool True],
         virtualbox_vms = [], nodes = [], working_dir = ''''\<rparr>,
        \<lparr>server_config = Map.empty, vm_array = []\<rparr>) = (m', st')"
    by (cases "setSettings [''vboxmanage_path'' \<mapsto> PStr ''/usr/bin/VBoxManage'']
       (\<lparr>settings = [''vboxmanage_path'' \<mapsto> PStr '''', ''use_local_server'' \<mapsto> PBool True],
         virtualbox_vms = [], nodes = [], working_dir = ''''\<rparr>,
        \<lparr>server_config = Map.empty, vm_array = []\<rparr>)") auto
  have a: "settings m' ''vboxmanage_path'' = Some (PStr ''/usr/bin/VBoxManage'')"
    using setSettings_merges [OF r, of "''vboxmanage_path''"] by simp
  have b: "settings m' ''use_local_server'' = Some (PBool True)"
    using setSettings_merges [OF r, of "''use_local_server''"] by simp
  have c: "settings m' ''console'' = None"
    using setSettings_merges [OF r, of "''console''"] by simp
  have d: "server_config st' = settings m'"
    using setSettings_merges [OF r, of "''console''"] by simp
  show ?thesis using r a b c d by simp
qed

subsection \<open>Setting up a node\<close>

lemma find_vm_other:
  "list_all (\<lambda>(k, info). other_name name info) vms \<Longrightarrow> find_vm name vms vm = Inr vm"
  by (induction vms arbitrary: vm) (auto simp: other_name_def getitem_def split: option.splits)

lemma find_vm_append:
  "find_vm name (xs @ ys) vm =
     (case find_vm name xs vm of Inl e \<Rightarrow> Inl e | Inr vm' \<Rightarrow> find_vm name ys vm')"
  by (induction xs arbitrary: vm) (auto simp: getitem_def split: option.splits sum.splits)

lemma find_vm_single:
  assumes "list_all (\<lambda>(k, info). other_name name info) before"
    and "named name info"
    and "list_all (\<lambda>(k, info). other_name name info) after"
  shows "find_vm name (before @ (key, info) # after) vm = Inr (Some key)"
  using assms
  by (auto simp: find_vm_append find_vm_other named_def getitem_def split: option.splits)

lemma select_vms_off:
  "list_all (\<lambda>(k, info). off_server srv info) vms \<Longrightarrow> select_vms srv vms sel = Inr sel"
  by (induction vms arbitrary: sel) (auto simp: off_server_def getitem_def split: option.splits)

lemma uses_template_fields:
  "uses_template info other_node \<Longrightarrow> \<exists>v s. info ''vmname'' = Some v \<and> info ''server'' = Some s"
  by (simp add: uses_template_def split: option.splits)

lemma check_unused_in_use:
  assumes "list_all (\<lambda>other_node. node_settings other_node ''vmname'' \<noteq> None) ns"
    and "list_ex (uses_template info) ns"
  shows "check_unused info ns = Inl TemplateAlreadyInUse"
proof -
  obtain v s where vs: "info ''vmname'' = Some v" "info ''server'' = Some s"
    using assms(2) uses_template_fields by (fastforce simp: list_ex_iff)
  show ?thesis
    using assms
    by (induction ns) (auto simp: uses_template_def getitem_def vs split: option.splits)
qed

lemma check_unused_errors:
  "check_unused info ns = Inl e \<Longrightarrow> e = TemplateAlreadyInUse \<or> (\<exists>k. e = KeyError k)"
  by (induction ns) (auto simp: getitem_def split: option.splits if_splits)

lemma configure_errors:
  "configure vms ns nd vm = Inl e \<Longrightarrow> e = TemplateAlreadyInUse \<or> (\<exists>k. e = KeyError k)"
  by (auto simp: configure_def getitem_def split: option.splits if_splits sum.splits
      dest: check_unused_errors)

lemmas example_defs =
  example_module_def example_vms_def debian_def router_def new_node_def debian_node_def
  router_node_def local_server_def remote_server_def far_server_def cancel_def

lemmas setup_defs =
  setupNode_def resolve_vm_def select_on_server_def choose_vm_def configure_def getitem_def on_server_def
  NoTemplateAvailable_def SelectionCancelled_def TemplateAlreadyInUse_def

text \<open>
  C1. Let \<^verbatim>\<open>setupNode\<close> resolve a template whose \<^verbatim>\<open>linked_base\<close> is false, and let
  the list of registered nodes hold a node whose \<^verbatim>\<open>vmname\<close> setting equals the
  template's \<^verbatim>\<open>vmname\<close> and whose server matches the template's server (the template
  says \<^verbatim>\<open>local\<close> and the node's server is local, or the template's server is the
  host of the node's server). Then \<^verbatim>\<open>setupNode\<close> raises the error "can only be used
  once", \<^verbatim>\<open>node.setup\<close> is not called, and the module is as before. Every registered
  node has a \<^verbatim>\<open>vmname\<close> setting, as the nodes of this module do: line 238 reads it
  from each node it passes.
\<close>

theorem setupNode_template_in_use:
  assumes "resolve_vm getItem (virtualbox_vms m) nd node_name = Inr vm"
    and "map_of (virtualbox_vms m) vm = Some info"
    and "info ''linked_base'' = Some (PBool False)"
    and "list_all (\<lambda>other_node. node_settings other_node ''vmname'' \<noteq> None) (nodes m)"
    and "list_ex (uses_template info) (nodes m)"
  shows "setupNode getItem m nd node_name = (Inl TemplateAlreadyInUse, m)"
  using assms by (simp add: setupNode_def configure_def getitem_def check_unused_in_use)

theorem setupNode_template_in_use_witness:
  "resolve_vm cancel (virtualbox_vms example_module) (new_node local_server) (Some ''debian'')
     = Inr ''local:debian''
   \<and> map_of (virtualbox_vms example_module) ''local:debian'' = Some debian
   \<and> debian ''linked_base'' = Some (PBool False)
   \<and> list_ex (uses_template debian) (nodes example_module)
   \<and> setupNode cancel example_module (new_node local_server) (Some ''debian'')
     = (Inl TemplateAlreadyInUse, example_module)"
proof -
  have r: "resolve_vm cancel (virtualbox_vms example_module) (new_node local_server)
             (Some ''debian'') = Inr ''local:debian''"
    by (simp add: example_defs setup_defs)
  have l: "map_of (virtualbox_vms example_module) ''local:debian'' = Some debian"
    by (simp add: example_module_def example_vms_def)
  have b: "debian ''linked_base'' = Some (PBool False)"
    by (simp add: debian_def)
  have t: "list_all (\<lambda>other_node. node_settings other_node ''vmname'' \<noteq> None)
             (nodes example_module)"
    by (simp add: example_defs)
  have u: "list_ex (uses_template debian) (nodes example_module)"
    by (simp add: example_defs uses_template_def)
  show ?thesis
    using setupNode_template_in_use [OF r l b t u] r l b u by simp
qed

text \<open>
  C2. Let exactly one template of the dictionary carry the requested name, at any
  place in it. Then \<^verbatim>\<open>setupNode\<close> with that name selects the key of this template,
  whatever the server of the target node and whatever the dialog would answer: the
  rest of the call is lines 235-248 for that key, and the errors of the selection by
  server, "No VirtualBox VM on server" and "Please select a VirtualBox VM", do not
  occur. The name is a requested one, that is not the empty string (line 208); the key
  is one of the form \<^verbatim>\<open>server:vmname\<close>, hence not the empty string (line 213); every
  template has a \<^verbatim>\<open>vmname\<close> item, which line 210 reads.
\<close>

theorem setupNode_requested_name:
  assumes "virtualbox_vms m = before @ (key, info) # after"
    and "distinct (map fst (virtualbox_vms m))"
    and "named name info"
    and "list_all (\<lambda>(k, info). other_name name info) before"
    and "list_all (\<lambda>(k, info). other_name name info) after"
    and "name \<noteq> []" and "key \<noteq> []"
  shows "resolve_vm getItem (virtualbox_vms m) nd (Some name) = Inr key
         \<and> map_of (virtualbox_vms m) key = Some info
         \<and> setupNode getItem m nd (Some name) =
             (configure (virtualbox_vms m) (nodes m) nd key, m)
         \<and> fst (setupNode getItem m nd (Some name)) \<noteq> Inl (NoTemplateAvailable h)
         \<and> fst (setupNode getItem m nd (Some name)) \<noteq> Inl SelectionCancelled"
proof -
  have f: "find_vm name (virtualbox_vms m) None = Inr (Some key)"
    using assms by (simp add: find_vm_single)
  have r: "resolve_vm getItem (virtualbox_vms m) nd (Some name) = Inr key"
    using f assms(6,7) by (simp add: resolve_vm_def)
  have "(key, info) \<in> set (virtualbox_vms m)"
    using assms(1) by simp
  then have l: "map_of (virtualbox_vms m) key = Some info"
    using assms(2) by (simp only: map_of_eq_Some_iff)
  have s: "setupNode getItem m nd (Some name) =
             (configure (virtualbox_vms m) (nodes m) nd key, m)"
    using r by (simp add: setupNode_def)
  have n: "configure (virtualbox_vms m) (nodes m) nd key \<noteq> Inl (NoTemplateAvailable h)"
    and c: "configure (virtualbox_vms m) (nodes m) nd key \<noteq> Inl SelectionCancelled"
    using configure_errors [of "virtualbox_vms m" "nodes m" nd key]
    by (auto simp: NoTemplateAvailable_def SelectionCancelled_def TemplateAlreadyInUse_def)
  show ?thesis using r l s n c by simp
qed

theorem setupNode_requested_name_witness:
  "off_server far_server router
   \<and> resolve_vm cancel (virtualbox_vms example_module) (new_node far_server) (Some ''router'')
     = Inr ''10.0.0.5:router''
   \<and> (case fst (setupNode cancel example_module (new_node far_server) (Some ''router'')) of
        Inl e \<Rightarrow> False
      | Inr c \<Rightarrow> vmname c = PStr ''router'' \<and> linked_clone c = PBool True
          \<and> additional_settings c ''adapters'' = Some (PInt 2)
          \<and> additional_settings c ''server'' = None)"
proof -
  have s: "virtualbox_vms example_module = [(''local:debian'', debian)] @ (''10.0.0.5:router'', router) # []"
    by (simp add: example_module_def example_vms_def)
  have d: "distinct (map fst (virtualbox_vms example_module))"
    by (simp add: example_module_def example_vms_def)
  have n: "named ''router'' router"
    by (simp add: named_def router_def)
  have o: "list_all (\<lambda>(k, info). other_name ''router'' info) [(''local:debian'', debian)]"
    by (simp add: other_name_def debian_def)
  have e: "list_all (\<lambda>(k, info). other_name ''router'' info) []"
    by simp
  have off: "off_server far_server router"
    by (simp add: off_server_def on_server_def router_def far_server_def)
  have c: "configure (virtualbox_vms example_module) (nodes example_module) (new_node far_server)
             ''10.0.0.5:router''
           = Inr \<lparr>vmname = PStr ''router'', linked_clone = PBool True,
                  additional_settings = router |` dom (node_settings (new_node far_server))\<rparr>"
    by (simp add: example_defs configure_def getitem_def)
  have a: "(router |` dom (node_settings (new_node far_server))) ''adapters'' = Some (PInt 2)"
     "(router |` dom (node_settings (new_node far_server))) ''server'' = None"
    by (simp_all add: router_def new_node_def restrict_map_def)
  show ?thesis
    using setupNode_requested_name [OF s d n o e, of cancel "new_node far_server"] off c a
    by simp
qed

text \<open>
  C3. Let no name be requested (\<^verbatim>\<open>None\<close> or the empty string), or a name that no
  template carries, and let no template be on the server of the target node: none
  whose \<^verbatim>\<open>server\<close> is the host of that server, and none whose \<^verbatim>\<open>server\<close> is
  \<^verbatim>\<open>local\<close> while that server is local. Then \<^verbatim>\<open>setupNode\<close> raises the error whose
  message is "No VirtualBox VM on server " followed by the host of the target node's
  server.
\<close>

theorem setupNode_no_template:
  assumes "case node_name of
             None \<Rightarrow> True
           | Some name \<Rightarrow>
               name = [] \<or> list_all (\<lambda>(k, info). other_name name info) (virtualbox_vms m)"
    and "list_all (\<lambda>(k, info). off_server (node_server nd) info) (virtualbox_vms m)"
  shows "setupNode getItem m nd node_name = (Inl (NoTemplateAvailable (host (node_server nd))), m)
         \<and> NoTemplateAvailable (host (node_server nd)) =
             ModuleError (''No VirtualBox VM on server '' @ host (node_server nd))"
  using assms
  by (auto simp: setupNode_def resolve_vm_def select_on_server_def find_vm_other select_vms_off
      choose_vm_def NoTemplateAvailable_def split: option.splits)

theorem setupNode_no_template_witness:
  "setupNode cancel example_module (new_node far_server) (Some ''windows'')
     = (Inl (ModuleError ''No VirtualBox VM on server 10.0.0.9''), example_module)"
proof -
  have n: "case Some ''windows'' of
             None \<Rightarrow> True
           | Some name \<Rightarrow>
               name = [] \<or> list_all (\<lambda>(k, info). other_name name info) (virtualbox_vms example_module)"
    by (simp add: example_defs other_name_def)
  have o: "list_all (\<lambda>(k, info). off_server (node_server (new_node far_server)) info)
             (virtualbox_vms example_module)"
    by (simp add: example_defs off_server_def on_server_def)
  show ?thesis
    using setupNode_no_template [OF n o, of cancel]
    by (simp add: new_node_def far_server_def)
qed

text \<open>
  C4. Let \<^verbatim>\<open>setupNode\<close> resolve a template whose \<^verbatim>\<open>linked_base\<close> is true. Then the
  registered nodes are not looked at: whatever they are, also when one of them is
  bound to the same VM on the same server, the call succeeds and calls \<^verbatim>\<open>node.setup\<close>
  with the template's \<^verbatim>\<open>vmname\<close>, \<^verbatim>\<open>linked_clone=True\<close> and the items of the
  template that are settings of the node.
\<close>

theorem setupNode_linked_base:
  assumes "resolve_vm getItem (virtualbox_vms m) nd node_name = Inr vm"
    and "map_of (virtualbox_vms m) vm = Some info"
    and "info ''linked_base'' = Some (PBool True)"
    and "info ''vmname'' = Some v"
  shows "setupNode getItem m nd node_name =
           (Inr \<lparr>vmname = v, linked_clone = PBool True,
                 additional_settings = info |` dom (node_settings nd)\<rparr>, m)"
  using assms by (simp add: setupNode_def configure_def getitem_def)

theorem setupNode_linked_base_witness:
  "resolve_vm cancel (virtualbox_vms example_module) (new_node remote_server) None
     = Inr ''10.0.0.5:router''
   \<and> list_ex (uses_template router) (nodes example_module)
   \<and> setupNode cancel example_module (new_node remote_server) None =
       (Inr \<lparr>vmname = PStr ''router'', linked_clone = PBool True,
             additional_settings = router |` dom (node_settings (new_node remote_server))\<rparr>,
        example_module)"
proof -
  have r: "resolve_vm cancel (virtualbox_vms example_module) (new_node remote_server) None
             = Inr ''10.0.0.5:router''"
    by (simp add: example_defs setup_defs)
  have l: "map_of (virtualbox_vms example_module) ''10.0.0.5:router'' = Some router"
    by (simp add: example_module_def example_vms_def)
  have b: "router ''linked_base'' = Some (PBool True)" and v: "router ''vmname'' = Some (PStr ''router'')"
    by (simp_all add: router_def)
  have u: "list_ex (uses_template router) (nodes example_module)"
    by (simp add: example_defs uses_template_def)
  show ?thesis
    using setupNode_linked_base [OF r l b v] r u by simp
qed

text \<open>
  C8. Whenever \<^verbatim>\<open>setupNode\<close> raises an error, whichever it is, the module is exactly
  as before the call (templates, registered nodes, settings), and the call has not
  reached \<^verbatim>\<open>node.setup\<close>.
\<close>

theorem setupNode_failure_changes_nothing:
  assumes "fst (setupNode getItem m nd node_name) = Inl e"
  shows "snd (setupNode getItem m nd node_name) = m
         \<and> (\<forall>c. fst (setupNode getItem m nd node_name) \<noteq> Inr c)"
  using assms by (auto simp: setupNode_def split: sum.splits)

theorem setupNode_failure_changes_nothing_witness:
  "fst (setupNode cancel example_module (new_node local_server) (Some ''debian''))
     = Inl TemplateAlreadyInUse
   \<and> snd (setupNode cancel example_module (new_node local_server) (Some ''debian''))
     = example_module"
proof -
  have f: "fst (setupNode cancel example_module (new_node local_server) (Some ''debian''))
             = Inl TemplateAlreadyInUse"
    by (simp add: example_defs setup_defs)
  show ?thesis
    using setupNode_failure_changes_nothing [OF f] f by simp
qed

text \<open>
  C9. Let no template carry the requested name. Then the search by name ends without
  an error and without a key, and \<^verbatim>\<open>setupNode\<close> does exactly what it does when no
  name is requested: the same result, from the selection by server.
\<close>

theorem setupNode_unknown_name:
  assumes "list_all (\<lambda>(k, info). other_name name info) (virtualbox_vms m)"
  shows "find_vm name (virtualbox_vms m) None = Inr None
         \<and> setupNode getItem m nd (Some name) = setupNode getItem m nd None"
  using assms by (simp add: setupNode_def resolve_vm_def find_vm_other)

theorem setupNode_unknown_name_witness:
  "setupNode cancel example_module (new_node remote_server) (Some ''windows'')
     = setupNode cancel example_module (new_node remote_server) None
   \<and> (case fst (setupNode cancel example_module (new_node remote_server) (Some ''windows'')) of
        Inl e \<Rightarrow> False
      | Inr c \<Rightarrow> vmname c = PStr ''router'')"
proof -
  have o: "list_all (\<lambda>(k, info). other_name ''windows'' info) (virtualbox_vms example_module)"
    by (simp add: example_defs other_name_def)
  have n: "case fst (setupNode cancel example_module (new_node remote_server) None) of
             Inl e \<Rightarrow> False
           | Inr c \<Rightarrow> vmname c = PStr ''router''"
    by (simp add: example_defs setup_defs)
  show ?thesis
    using setupNode_unknown_name [OF o, of cancel "new_node remote_server"] n by simp
qed

subsection \<open>Loading and saving the templates\<close>

lemma load_loop_Cons:
  "load_loop S T (e # es) vms =
     (if entry_key e \<in> fst ` set vms \<or> \<not> loadable e then load_loop S T es vms
      else load_loop S T es (vms @ [(entry_key e, read_vm T e S Map.empty)]))"
  by (auto simp: Let_def entry_key_def loadable_def)

declare load_loop.simps(2) [simp del]

lemma load_loop_append:
  "load_loop S T (xs @ ys) vms = load_loop S T ys (load_loop S T xs vms)"
  by (induction xs arbitrary: vms) (simp_all add: load_loop_Cons)

lemma load_loop_keys:
  "fst ` set (load_loop S T es vms) =
     fst ` set vms \<union> entry_key ` {e \<in> set es. loadable e}"
  by (induction es arbitrary: vms) (auto simp: load_loop_Cons)

lemma load_loop_distinct:
  "distinct (map fst vms) \<Longrightarrow> distinct (map fst (load_loop S T es vms))"
  by (induction es arbitrary: vms) (auto simp: load_loop_Cons)

lemma map_of_snoc:
  "map_of (vms @ [(key, info)]) k =
     (case map_of vms k of Some i \<Rightarrow> Some i | None \<Rightarrow> if k = key then Some info else None)"
  by (simp add: map_add_def split: option.splits)

lemma load_loop_lookup:
  "map_of (load_loop S T es vms) k =
     (case map_of vms k of
        Some info \<Rightarrow> Some info
      | None \<Rightarrow> map_option (\<lambda>e. read_vm T e S Map.empty)
                  (find (\<lambda>e. loadable e \<and> entry_key e = k) es))"
proof (induction es arbitrary: vms)
  case Nil
  then show ?case by (simp split: option.splits)
next
  case (Cons e es)
  show ?case
  proof (cases "entry_key e \<in> fst ` set vms \<or> \<not> loadable e")
    case True
    have "map_of vms k = None \<Longrightarrow> \<not> (loadable e \<and> entry_key e = k)"
      using True by (auto simp: map_of_eq_None_iff)
    then show ?thesis
      using True Cons.IH [of vms]
      by (auto simp: load_loop_Cons split: option.splits)
  next
    case False
    then have "map_of vms (entry_key e) = None"
      by (simp add: map_of_eq_None_iff)
    then show ?thesis
      using False Cons.IH [of "vms @ [(entry_key e, read_vm T e S Map.empty)]"]
      by (auto simp: load_loop_Cons map_of_snoc split: option.splits)
  qed
qed

lemma load_loop_duplicate:
  assumes "qvalue e' ''server'' = qvalue e ''server''"
    and "qvalue e' ''vmname'' = qvalue e ''vmname''"
  shows "load_loop S T (es1 @ e # es2 @ e' # es3) vms = load_loop S T (es1 @ e # es2 @ es3) vms"
proof -
  let ?mid = "load_loop S T (es1 @ e # es2) vms"
  have k: "entry_key e' = entry_key e" and l: "loadable e' = loadable e"
    using assms by (simp_all add: entry_key_def loadable_def)
  have "entry_key e' \<in> fst ` set ?mid \<or> \<not> loadable e'"
    unfolding k l by (auto simp: load_loop_keys)
  then have "load_loop S T (e' # es3) ?mid = load_loop S T es3 ?mid"
    by (simp add: load_loop_Cons)
  then have "load_loop S T ((es1 @ e # es2) @ e' # es3) vms
             = load_loop S T ((es1 @ e # es2) @ es3) vms"
    by (simp only: load_loop_append)
  then show ?thesis by simp
qed

lemma load_loop_filter:
  "load_loop S T (filter loadable es) vms = load_loop S T es vms"
  by (induction es arbitrary: vms) (auto simp: load_loop_Cons)

lemma load_loop_origin:
  "(k, info) \<in> set (load_loop S T es vms) \<Longrightarrow>
   (k, info) \<in> set vms \<or>
   (\<exists>e \<in> set es. loadable e \<and> k = entry_key e \<and> info = read_vm T e S Map.empty)"
proof (induction es arbitrary: vms)
  case Nil
  then show ?case by simp
next
  case (Cons a es)
  show ?case
  proof (cases "entry_key a \<in> fst ` set vms \<or> \<not> loadable a")
    case True
    then have "(k, info) \<in> set (load_loop S T es vms)"
      using Cons.prems by (simp add: load_loop_Cons)
    from Cons.IH [OF this] show ?thesis by auto
  next
    case False
    then have "(k, info) \<in> set (load_loop S T es (vms @ [(entry_key a, read_vm T a S Map.empty)]))"
      using Cons.prems by (simp add: load_loop_Cons)
    from Cons.IH [OF this] False show ?thesis by auto
  qed
qed

lemma read_vm_outside:
  "name \<notin> fst ` set S \<Longrightarrow> read_vm T e S vm name = vm name"
  by (induction S arbitrary: vm) auto

lemma read_vm_stored:
  "name \<in> fst ` set S \<Longrightarrow> e name = Some v \<Longrightarrow> read_vm T e S vm name = Some (T name v)"
proof (induction S arbitrary: vm)
  case Nil
  then show ?case by simp
next
  case (Cons a S)
  obtain n d where a: "a = (n, d)" by (cases a)
  show ?case
  proof (cases "name \<in> fst ` set S")
    case True
    then show ?thesis using Cons a by simp
  next
    case False
    then have "name = n" using Cons.prems(1) a by auto
    then show ?thesis using False Cons.prems(2) a
      by (simp add: read_vm_outside qvalue_typed_def)
  qed
qed

lemma truthy_qvalue: "truthy (qvalue e name) \<Longrightarrow> e name = Some (qvalue e name)"
  by (cases "e name") (simp_all add: qvalue_def)

lemma read_vm_nonempty:
  assumes "name \<in> fst ` set S" "truthy (qvalue e name)" "\<And>v. truthy v \<Longrightarrow> truthy (T name v)"
  shows "nonempty_item (read_vm T e S Map.empty) name"
  using read_vm_stored [of name S e "qvalue e name" T Map.empty] truthy_qvalue [of e name] assms
  by (simp add: nonempty_item_def)

lemma read_vm_same:
  assumes "dom info = fst ` set S"
    and "\<And>name v. info name = Some v \<Longrightarrow> T name v = v"
  shows "read_vm T info S Map.empty = info"
proof
  fix name
  show "read_vm T info S Map.empty name = info name"
  proof (cases "info name")
    case None
    then have "name \<notin> fst ` set S" using assms(1) by auto
    then show ?thesis using None by (simp add: read_vm_outside)
  next
    case (Some v)
    then have "name \<in> fst ` set S" using assms(1) by auto
    then show ?thesis using Some assms(2) by (simp add: read_vm_stored)
  qed
qed

lemma load_loop_saved:
  "distinct (map fst (vms0 @ vms)) \<Longrightarrow> list_all (persistable S T) vms \<Longrightarrow>
   load_loop S T (map snd vms) vms0 = vms0 @ vms"
proof (induction vms arbitrary: vms0)
  case Nil
  then show ?case by simp
next
  case (Cons a vms)
  obtain k info where a: "a = (k, info)" by (cases a)
  have p: "k = entry_key info" "loadable info" "read_vm T info S Map.empty = info"
    using Cons.prems(2) a by (auto simp: persistable_def intro: read_vm_same)
  have n: "entry_key info \<notin> fst ` set vms0"
    using Cons.prems(1) a p(1) by auto
  have d: "distinct (map fst ((vms0 @ [(k, info)]) @ vms))"
    using Cons.prems(1) a by simp
  have "load_loop S T (map snd (a # vms)) vms0 = load_loop S T (map snd vms) (vms0 @ [(k, info)])"
    using a p n by (simp add: load_loop_Cons)
  also have "\<dots> = (vms0 @ [(k, info)]) @ vms"
    using Cons.IH [OF d] Cons.prems(2) by simp
  finally show ?case using a by simp
qed

lemma load_loop_present:
  "list_all (\<lambda>e. entry_key e \<in> fst ` set vms \<or> \<not> loadable e) es \<Longrightarrow>
   load_loop S T es vms = vms"
  by (induction es) (simp_all add: load_loop_Cons)

lemma write_vms_append: "write_vms xs array = array @ xs"
  by (induction xs arbitrary: array) auto

lemma init_vms: "virtualbox_vms (init S T loaded st) = load_loop S T (vm_array st) []"
  by (simp add: init_def loadVirtualBoxVMs_def)

lemma init_array:
  "load_loop S T (vm_array st) [] = load_loop S T (vm_array st') [] \<Longrightarrow>
   init S T loaded st = init S T loaded st'"
  by (simp add: init_def loadVirtualBoxVMs_def)

lemmas load_defs =
  load_loop_Cons entry_key_def loadable_def qvalue_def format_key_def qvalue_typed_def
  example_VBOX_VM_SETTINGS_def as_stored_def

text \<open>
  C5. In the dictionary that \<^verbatim>\<open>_loadVirtualBoxVMs\<close> builds when the module is created,
  the keys are pairwise distinct; the template under a key is the one read from the
  first array entry that has this key (and a non-empty name and server); and an entry
  that repeats the server and the name of an earlier entry, hence its key, is skipped:
  the module is the one created from the array without it.
\<close>

theorem loadVirtualBoxVMs_first_wins:
  "distinct (map fst (virtualbox_vms (init S T loaded st)))
   \<and> map_of (virtualbox_vms (init S T loaded st)) key =
       map_option (\<lambda>entry. read_vm T entry S Map.empty)
         (find (\<lambda>entry. loadable entry \<and> entry_key entry = key) (vm_array st))
   \<and> (vm_array st = es1 @ e # es2 @ e' # es3
        \<and> qvalue e' ''server'' = qvalue e ''server''
        \<and> qvalue e' ''vmname'' = qvalue e ''vmname''
      \<longrightarrow> init S T loaded st = init S T loaded (st\<lparr>vm_array := es1 @ e # es2 @ es3\<rparr>))"
proof -
  have a: "distinct (map fst (virtualbox_vms (init S T loaded st)))"
    by (simp add: init_vms load_loop_distinct)
  have b: "map_of (virtualbox_vms (init S T loaded st)) key =
       map_option (\<lambda>entry. read_vm T entry S Map.empty)
         (find (\<lambda>entry. loadable entry \<and> entry_key entry = key) (vm_array st))"
    by (simp add: init_vms load_loop_lookup)
  have c: "init S T loaded st = init S T loaded (st\<lparr>vm_array := es1 @ e # es2 @ es3\<rparr>)"
    if "vm_array st = es1 @ e # es2 @ e' # es3"
      and "qvalue e' ''server'' = qvalue e ''server''"
      and "qvalue e' ''vmname'' = qvalue e ''vmname''"
    using that by (intro init_array) (simp add: load_loop_duplicate)
  show ?thesis using a b c by blast
qed

theorem loadVirtualBoxVMs_first_wins_witness:
  "map fst (virtualbox_vms (init example_VBOX_VM_SETTINGS as_stored Map.empty
      (example_store\<lparr>vm_array := [debian, router, debian(''adapters'' \<mapsto> PInt 4)]\<rparr>)))
     = [''local:debian'', ''10.0.0.5:router'']
   \<and> map_of (virtualbox_vms (init example_VBOX_VM_SETTINGS as_stored Map.empty
      (example_store\<lparr>vm_array := [debian, router, debian(''adapters'' \<mapsto> PInt 4)]\<rparr>)))
        ''local:debian'' = Some debian
   \<and> init example_VBOX_VM_SETTINGS as_stored Map.empty
        (example_store\<lparr>vm_array := [debian, router, debian(''adapters'' \<mapsto> PInt 4)]\<rparr>)
     = init example_VBOX_VM_SETTINGS as_stored Map.empty
        (example_store\<lparr>vm_array := [debian, router]\<rparr>)"
proof -
  let ?st = "example_store\<lparr>vm_array := [debian, router, debian(''adapters'' \<mapsto> PInt 4)]\<rparr>"
  note t = loadVirtualBoxVMs_first_wins [of example_VBOX_VM_SETTINGS as_stored Map.empty ?st
      "''local:debian''" "[]" debian "[router]" "debian(''adapters'' \<mapsto> PInt 4)" "[]"]
  have k: "map fst (virtualbox_vms (init example_VBOX_VM_SETTINGS as_stored Map.empty ?st))
             = [''local:debian'', ''10.0.0.5:router'']"
    by (simp add: init_vms load_defs debian_def router_def)
  have r: "read_vm as_stored debian example_VBOX_VM_SETTINGS Map.empty = debian"
    by (rule read_vm_same) (auto simp: debian_def example_VBOX_VM_SETTINGS_def as_stored_def)
  have f: "find (\<lambda>entry. loadable entry \<and> entry_key entry = ''local:debian'') (vm_array ?st)
             = Some debian"
    by (simp add: load_defs debian_def)
  have q: "qvalue (debian(''adapters'' \<mapsto> PInt 4)) ''server'' = qvalue debian ''server''"
     "qvalue (debian(''adapters'' \<mapsto> PInt 4)) ''vmname'' = qvalue debian ''vmname''"
    by (simp_all add: qvalue_def)
  have b0: "map_of (virtualbox_vms (init example_VBOX_VM_SETTINGS as_stored Map.empty ?st))
              ''local:debian'' =
            map_option (\<lambda>entry. read_vm as_stored entry example_VBOX_VM_SETTINGS Map.empty)
              (find (\<lambda>entry. loadable entry \<and> entry_key entry = ''local:debian'') (vm_array ?st))"
    using t by blast
  have b: "map_of (virtualbox_vms (init example_VBOX_VM_SETTINGS as_stored Map.empty ?st))
             ''local:debian'' = Some debian"
    unfolding b0 f by (simp add: r)
  have v: "vm_array ?st = [] @ debian # [router] @ debian(''adapters'' \<mapsto> PInt 4) # []"
    by simp
  have c0: "init example_VBOX_VM_SETTINGS as_stored Map.empty ?st
            = init example_VBOX_VM_SETTINGS as_stored Map.empty
                (?st\<lparr>vm_array := [] @ debian # [router] @ []\<rparr>)"
    using t v q by blast
  have w: "?st\<lparr>vm_array := [] @ debian # [router] @ []\<rparr>
           = example_store\<lparr>vm_array := [debian, router]\<rparr>"
    by simp
  show ?thesis
    by (rule conjI [OF k conjI [OF b c0 [unfolded w]]])
qed

text \<open>
  C10. \<^verbatim>\<open>_loadVirtualBoxVMs\<close> drops every array entry whose \<^verbatim>\<open>vmname\<close> or \<^verbatim>\<open>server\<close>
  is missing or empty: the module is the one created from the array without these
  entries, and every template of its dictionary was read from an entry with a
  non-empty name and a non-empty server. Hence, when \<^verbatim>\<open>vmname\<close> and \<^verbatim>\<open>server\<close> are
  names of \<^verbatim>\<open>VBOX_VM_SETTINGS\<close> and the typed read of a non-empty value is non-empty,
  every loaded template has a non-empty \<^verbatim>\<open>vmname\<close> and a non-empty \<^verbatim>\<open>server\<close>.
\<close>

theorem loadVirtualBoxVMs_discards:
  "init S T loaded st = init S T loaded (st\<lparr>vm_array := filter loadable (vm_array st)\<rparr>)
   \<and> list_all (\<lambda>(key, info).
        list_ex (\<lambda>entry. loadable entry \<and> key = entry_key entry
                   \<and> info = read_vm T entry S Map.empty) (vm_array st))
       (virtualbox_vms (init S T loaded st))
   \<and> (''vmname'' \<in> fst ` set S \<and> ''server'' \<in> fst ` set S
        \<and> (\<forall>v. truthy v \<longrightarrow> truthy (T ''vmname'' v))
        \<and> (\<forall>v. truthy v \<longrightarrow> truthy (T ''server'' v))
      \<longrightarrow> list_all (\<lambda>(key, info). nonempty_item info ''vmname'' \<and> nonempty_item info ''server'')
            (virtualbox_vms (init S T loaded st)))"
proof -
  have a: "init S T loaded st = init S T loaded (st\<lparr>vm_array := filter loadable (vm_array st)\<rparr>)"
    by (intro init_array) (simp add: load_loop_filter)
  have o: "\<exists>e \<in> set (vm_array st). loadable e \<and> k = entry_key e \<and> info = read_vm T e S Map.empty"
    if "(k, info) \<in> set (virtualbox_vms (init S T loaded st))" for k info
    using load_loop_origin [of k info S T "vm_array st" "[]"] that by (simp add: init_vms)
  have b: "list_all (\<lambda>(key, info).
        list_ex (\<lambda>entry. loadable entry \<and> key = entry_key entry
                   \<and> info = read_vm T entry S Map.empty) (vm_array st))
       (virtualbox_vms (init S T loaded st))"
    using o by (auto simp: list_all_iff list_ex_iff)
  have c: "list_all (\<lambda>(key, info). nonempty_item info ''vmname'' \<and> nonempty_item info ''server'')
            (virtualbox_vms (init S T loaded st))"
    if s: "''vmname'' \<in> fst ` set S" "''server'' \<in> fst ` set S"
      and t: "\<And>v. truthy v \<Longrightarrow> truthy (T ''vmname'' v)" "\<And>v. truthy v \<Longrightarrow> truthy (T ''server'' v)"
  proof -
    have "nonempty_item info ''vmname'' \<and> nonempty_item info ''server''"
      if mem: "(k, info) \<in> set (virtualbox_vms (init S T loaded st))" for k info
    proof -
      obtain e where e: "loadable e" "info = read_vm T e S Map.empty"
        using o [OF mem] by blast
      show ?thesis
        using e s t by (simp add: loadable_def read_vm_nonempty)
    qed
    then show ?thesis by (auto simp: list_all_iff)
  qed
  show ?thesis using a b c by blast
qed

theorem loadVirtualBoxVMs_discards_witness:
  "map fst (virtualbox_vms (init example_VBOX_VM_SETTINGS as_stored Map.empty
      (example_store\<lparr>vm_array := [unnamed, [''vmname'' \<mapsto> PStr ''lost''], router]\<rparr>)))
     = [''10.0.0.5:router'']
   \<and> init example_VBOX_VM_SETTINGS as_stored Map.empty
        (example_store\<lparr>vm_array := [unnamed, [''vmname'' \<mapsto> PStr ''lost''], router]\<rparr>)
     = init example_VBOX_VM_SETTINGS as_stored Map.empty (example_store\<lparr>vm_array := [router]\<rparr>)
   \<and> list_all (\<lambda>(key, info). nonempty_item info ''vmname'' \<and> nonempty_item info ''server'')
       (virtualbox_vms (init example_VBOX_VM_SETTINGS as_stored Map.empty
          (example_store\<lparr>vm_array := [unnamed, [''vmname'' \<mapsto> PStr ''lost''], router]\<rparr>)))"
proof -
  let ?st = "example_store\<lparr>vm_array := [unnamed, [''vmname'' \<mapsto> PStr ''lost''], router]\<rparr>"
  note t = loadVirtualBoxVMs_discards [of example_VBOX_VM_SETTINGS as_stored Map.empty ?st]
  have k: "map fst (virtualbox_vms (init example_VBOX_VM_SETTINGS as_stored Map.empty ?st))
             = [''10.0.0.5:router'']"
    by (simp add: init_vms load_defs unnamed_def router_def)
  have f: "filter loadable (vm_array ?st) = [router]"
    by (simp add: loadable_def qvalue_def unnamed_def router_def)
  have s: "''vmname'' \<in> fst ` set example_VBOX_VM_SETTINGS"
     "''server'' \<in> fst ` set example_VBOX_VM_SETTINGS"
    by (simp_all add: example_VBOX_VM_SETTINGS_def)
  have c: "\<forall>v. truthy v \<longrightarrow> truthy (as_stored ''vmname'' v)"
     "\<forall>v. truthy v \<longrightarrow> truthy (as_stored ''server'' v)"
    by (simp_all add: as_stored_def)
  have e: "?st\<lparr>vm_array := filter loadable (vm_array ?st)\<rparr> = example_store\<lparr>vm_array := [router]\<rparr>"
    unfolding f by simp
  have a: "init example_VBOX_VM_SETTINGS as_stored Map.empty ?st
             = init example_VBOX_VM_SETTINGS as_stored Map.empty (example_store\<lparr>vm_array := [router]\<rparr>)"
    using t unfolding e by blast
  have n: "list_all (\<lambda>(key, info). nonempty_item info ''vmname'' \<and> nonempty_item info ''server'')
             (virtualbox_vms (init example_VBOX_VM_SETTINGS as_stored Map.empty ?st))"
    using t s c by blast
  show ?thesis
    by (rule conjI [OF k conjI [OF a n]])
qed

text \<open>A key built by line 86 holds a colon: the loader files nothing under the empty key.\<close>

lemma format_key_nonempty: "format_key s v \<noteq> []"
  by (simp add: format_key_def)

lemma init_keys_nonempty:
  "(key, info) \<in> set (virtualbox_vms (init S T loaded st)) \<Longrightarrow> key \<noteq> []"
  using load_loop_origin [of key info S T "vm_array st" "[]"]
  by (auto simp: init_vms entry_key_def format_key_nonempty)

text \<open>
  What a restart needs of the dictionary that was saved: if the dictionary comes back
  as it was, every item of it was \<open>persistable\<close>.
\<close>

lemma load_loop_length:
  "length (load_loop S T es vms) \<le> length vms + length es"
proof (induction es arbitrary: vms)
  case Nil
  then show ?case by simp
next
  case (Cons e es)
  show ?case
    using Cons.IH [of vms] Cons.IH [of "vms @ [(entry_key e, read_vm T e S Map.empty)]"]
    by (simp add: load_loop_Cons)
qed

lemma load_loop_all_loaded:
  "length (load_loop S T es vms) = length vms + length es \<Longrightarrow>
   load_loop S T es vms = vms @ map (\<lambda>e. (entry_key e, read_vm T e S Map.empty)) es
   \<and> list_all loadable es"
proof (induction es arbitrary: vms)
  case Nil
  then show ?case by simp
next
  case (Cons e es)
  show ?case
  proof (cases "entry_key e \<in> fst ` set vms \<or> \<not> loadable e")
    case True
    then have "length (load_loop S T (e # es) vms) \<le> length vms + length es"
      using load_loop_length [of S T es vms] by (simp add: load_loop_Cons)
    then show ?thesis using Cons.prems by simp
  next
    case False
    then have "length (load_loop S T es (vms @ [(entry_key e, read_vm T e S Map.empty)]))
               = length (vms @ [(entry_key e, read_vm T e S Map.empty)]) + length es"
      using Cons.prems by (simp add: load_loop_Cons)
    from Cons.IH [OF this] False show ?thesis by (simp add: load_loop_Cons)
  qed
qed

lemma read_vm_dom: "dom (read_vm T e S vm) = dom vm \<union> fst ` set S"
proof (induction S arbitrary: vm)
  case Nil
  then show ?case by simp
next
  case (Cons a S)
  obtain n d where a: "a = (n, d)" by (cases a)
  have "dom (read_vm T e (a # S) vm) = dom (vm(n \<mapsto> qvalue_typed T e n d)) \<union> fst ` set S"
    unfolding a read_vm.simps by (rule Cons.IH)
  then show ?case unfolding a by auto
qed

lemma read_vm_fixed:
  assumes "read_vm T info S Map.empty = info"
  shows "dom info = fst ` set S \<and> (\<forall>name v. info name = Some v \<longrightarrow> T name v = v)"
proof -
  have d: "dom info = fst ` set S"
    using read_vm_dom [of T info S Map.empty] assms by simp
  have "T name v = v" if "info name = Some v" for name v
  proof -
    have "name \<in> fst ` set S" using that d by auto
    then have "read_vm T info S Map.empty name = Some (T name v)"
      using that by (rule read_vm_stored)
    then show ?thesis using assms that by simp
  qed
  then show ?thesis using d by blast
qed

lemma restart_same_only_persistable:
  assumes "virtualbox_vms (init S T loaded (snd (setVirtualBoxVMs vms (m, st)))) = vms"
  shows "list_all (persistable S T) vms"
proof -
  have l: "load_loop S T (map snd vms) [] = vms"
    using assms
    by (simp add: init_vms setVirtualBoxVMs_def saveVirtualBoxVMs_def write_vms_append)
  then have "length (load_loop S T (map snd vms) []) = length ([] :: vms_dict) + length (map snd vms)"
    by simp
  from load_loop_all_loaded [OF this] l
  have e: "vms = map (\<lambda>e. (entry_key e, read_vm T e S Map.empty)) (map snd vms)"
    and a: "list_all loadable (map snd vms)"
    by simp_all
  have p: "map (\<lambda>(k, info). (entry_key info, read_vm T info S Map.empty)) vms
           = map (\<lambda>x. x) vms"
    using e by (simp add: comp_def case_prod_unfold)
  then have q: "\<forall>x \<in> set vms. (\<lambda>(k, info). (entry_key info, read_vm T info S Map.empty)) x = x"
    by (simp only: map_eq_conv)
  have "persistable S T (k, info)" if mem: "(k, info) \<in> set vms" for k info
  proof -
    have "(entry_key info, read_vm T info S Map.empty) = (k, info)"
      using mem q by fastforce
    then have "k = entry_key info" "read_vm T info S Map.empty = info"
      by simp_all
    moreover have "loadable info"
      using a mem by (auto simp: list_all_iff)
    ultimately show ?thesis
      using read_vm_fixed [of T info S] by (simp add: persistable_def)
  qed
  then show ?thesis by (auto simp: list_all_iff)
qed

text \<open>
  C6, as amended. Let every item of the dictionary passed to \<^verbatim>\<open>setVirtualBoxVMs\<close> be
  filed under the key \<^verbatim>\<open>server:vmname\<close> of its own template, with a non-empty
  \<^verbatim>\<open>vmname\<close> and a non-empty \<^verbatim>\<open>server\<close>, and let every template have the settings of
  \<^verbatim>\<open>VBOX_VM_SETTINGS\<close> and no other, with values the typed read returns as they were
  written. Then the save replaces the whole array, whatever it held, by the templates,
  and a module created from the saved store has the same dictionary: the same keys in
  the same order, with the same templates. So has the module itself when it loads the
  saved store again.
\<close>

theorem setVirtualBoxVMs_restart:
  assumes "distinct (map fst vms)" and "list_all (persistable S T) vms"
  shows "vm_array (snd (setVirtualBoxVMs vms (m, st))) = map snd vms
         \<and> virtualbox_vms (init S T loaded (snd (setVirtualBoxVMs vms (m, st)))) = vms
         \<and> virtualbox_vms (loadVirtualBoxVMs S T (snd (setVirtualBoxVMs vms (m, st)))
               (fst (setVirtualBoxVMs vms (m, st)))) = vms"
proof -
  have a: "vm_array (snd (setVirtualBoxVMs vms (m, st))) = map snd vms"
    by (simp add: setVirtualBoxVMs_def saveVirtualBoxVMs_def write_vms_append)
  have b: "virtualbox_vms (init S T loaded (snd (setVirtualBoxVMs vms (m, st)))) = vms"
    using load_loop_saved [of "[]" vms S T] assms by (simp add: init_vms a)
  have "entry_key info \<in> fst ` set vms" if mem: "(k, info) \<in> set vms" for k info
  proof -
    have "persistable S T (k, info)"
      using assms(2) mem by (simp add: list_all_iff)
    then have "k = entry_key info"
      by (simp add: persistable_def)
    then show ?thesis
      using mem by (metis fst_conv image_eqI)
  qed
  then have p: "list_all (\<lambda>e. entry_key e \<in> fst ` set vms \<or> \<not> loadable e) (map snd vms)"
    unfolding list_all_iff by auto
  have v: "virtualbox_vms (fst (setVirtualBoxVMs vms (m, st))) = vms"
    by (simp add: setVirtualBoxVMs_def Let_def)
  have c: "virtualbox_vms (loadVirtualBoxVMs S T (snd (setVirtualBoxVMs vms (m, st)))
             (fst (setVirtualBoxVMs vms (m, st)))) = vms"
    unfolding loadVirtualBoxVMs_def by (simp add: a v load_loop_present [OF p])
  show ?thesis
    by (rule conjI [OF a conjI [OF b c]])
qed

theorem setVirtualBoxVMs_restart_witness:
  "virtualbox_vms (init example_VBOX_VM_SETTINGS as_stored Map.empty
     (snd (setVirtualBoxVMs example_vms
        (example_module, example_store\<lparr>vm_array := [unnamed, unnamed]\<rparr>)))) = example_vms"
proof -
  have d: "distinct (map fst example_vms)"
    by (simp add: example_vms_def)
  have p: "list_all (persistable example_VBOX_VM_SETTINGS as_stored) example_vms"
    by (auto simp: example_vms_def persistable_def entry_key_def loadable_def qvalue_def
        format_key_def debian_def router_def example_VBOX_VM_SETTINGS_def as_stored_def)
  show ?thesis
    using setVirtualBoxVMs_restart [OF d p] by blast
qed

text \<open>
  The claim C6 as it was stated, for every dictionary, fails: a template whose
  \<^verbatim>\<open>vmname\<close> is empty is written by the save and dropped by line 87 when the module
  is created again, so its key is lost.
\<close>

theorem setVirtualBoxVMs_restart_counterexample:
  "fst ` set (virtualbox_vms (init example_VBOX_VM_SETTINGS as_stored Map.empty
     (snd (setVirtualBoxVMs [(''local:debian'', debian), (''local:'', unnamed)]
        (example_module, example_store)))))
   \<noteq> fst ` set [(''local:debian'', debian), (''local:'', unnamed)]"
  by (simp add: init_vms setVirtualBoxVMs_def saveVirtualBoxVMs_def load_defs
      debian_def unnamed_def)

end
